theory Spec2Isabelle
  imports Complex_Main "HOL-Library.Sublist" "HOL-Library.AList" "HOL-Library.Log_Nat" "HOL-Library.Word"
begin

section \<open>Strings, byte sequences and HTTP headers\<close>

text \<open>
  JavaScript strings are modelled as \<open>string\<close>, a \<open>char\<close> being a code unit below
  256: header values are byte strings, and paths, formats and URLs are ASCII. A
  \<open>Uint8Array\<close> is a list of bytes. \<open>String.prototype.startsWith\<close> is \<open>prefix\<close>;
  \<open>String.prototype.includes\<close> is the scan below.
\<close>

type_synonym bytes = "8 word list"

fun str_includes :: "string \<Rightarrow> string \<Rightarrow> bool" where
  "str_includes [] sub = (sub = [])"
| "str_includes (c # cs) sub = (prefix sub (c # cs) \<or> str_includes cs sub)"

definition startsWith :: "string \<Rightarrow> string \<Rightarrow> bool" where
  "startsWith s pre = prefix pre s"

text \<open>
  \<open>x || d\<close> on a header value that may be \<open>null\<close>: \<open>null\<close> and the empty string are
  both falsy.
\<close>

definition or_default :: "string option \<Rightarrow> string \<Rightarrow> string" where
  "or_default v d = (case v of None \<Rightarrow> d | Some s \<Rightarrow> if s = [] then d else s)"

text \<open>
  A \<open>Headers\<close> object: one entry for each name, in the order the names were first
  added. \<open>append\<close> on a name that is present joins the values with a comma and a
  space, which is what \<open>get\<close> then returns. The source writes every name with the
  same capitalisation, so names are compared as written.
\<close>

type_synonym headers = "(string \<times> string) list"

definition headers_get :: "headers \<Rightarrow> string \<Rightarrow> string option" where
  "headers_get h name = map_of h name"

definition headers_set :: "string \<Rightarrow> string \<Rightarrow> headers \<Rightarrow> headers" where
  "headers_set name v h = AList.update name v h"



section \<open>parseInt\<close>

text \<open>
  \<open>parseInt(s)\<close> without a radix: leading white space is skipped, a sign is read, a
  \<open>0x\<close> or \<open>0X\<close> prefix selects radix 16, and the longest run of digits is the
  value; no digit at all gives \<open>NaN\<close>, here \<open>None\<close>. Every comparison with \<open>NaN\<close> is
  false. The white space of \<open>parseInt\<close> is tab, line feed, vertical tab, form feed,
  carriage return, space and, among the code units below 256, the no-break space
  U+00A0; the other white space of Unicode lies above 255 and cannot occur in a header
  value. The value is kept exact: the two comparisons made with it give the same
  result for the double that \<open>parseInt\<close> returns.
\<close>

definition isWhiteSpace :: "char \<Rightarrow> bool" where
  "isWhiteSpace c =
     (c \<in> set [CHR 0x09, CHR 0x0A, CHR 0x0B, CHR 0x0C, CHR 0x0D, CHR '' '', CHR 0xA0])"

definition digitValue :: "char \<Rightarrow> nat option" where
  "digitValue c =
     (let n = of_char c :: nat in
      if 48 \<le> n \<and> n \<le> 57 then Some (n - 48)
      else if 97 \<le> n \<and> n \<le> 102 then Some (n - 87)
      else if 65 \<le> n \<and> n \<le> 70 then Some (n - 55)
      else None)"

definition isDigitOf :: "nat \<Rightarrow> char \<Rightarrow> bool" where
  "isDigitOf radix c = (case digitValue c of None \<Rightarrow> False | Some d \<Rightarrow> d < radix)"

definition digitsValue :: "nat \<Rightarrow> string \<Rightarrow> int" where
  "digitsValue radix ds = foldl (\<lambda>acc c. acc * int radix + int (the (digitValue c))) 0 ds"

definition parseInt :: "string \<Rightarrow> int option" where
  "parseInt s =
     (let s1 = dropWhile isWhiteSpace s;
          neg = (s1 \<noteq> [] \<and> hd s1 = CHR ''-'');
          s2 = (if s1 \<noteq> [] \<and> (hd s1 = CHR ''-'' \<or> hd s1 = CHR ''+'') then tl s1 else s1);
          hex = (prefix ''0x'' s2 \<or> prefix ''0X'' s2);
          radix = (if hex then 16 else 10);
          s3 = (if hex then drop 2 s2 else s2);
          ds = takeWhile (isDigitOf radix) s3
      in if ds = [] then None
         else Some ((if neg then - 1 else 1) * digitsValue radix ds))"



section \<open>compressMiddleware\<close>


record res =
  res_headers :: headers
  res_body :: "bytes list option"




section \<open>cacheControlMiddleware\<close>

definition cacheControlMiddleware :: "string \<Rightarrow> res \<Rightarrow> res" where
  "cacheControlMiddleware url r =
     (let contentType = or_default (headers_get (res_headers r) ''Content-Type'') []
      in if startsWith contentType ''image/'' \<or> str_includes url ''/images/'' \<or> str_includes url ''/assets/'' then
           r\<lparr>res_headers := headers_set ''Cache-Control'' ''public, max-age=31536000, immutable'' (res_headers r)\<rparr>
         else if str_includes contentType ''javascript'' \<or> str_includes contentType ''css'' then
           r\<lparr>res_headers := headers_set ''Cache-Control'' ''public, max-age=31536000, immutable'' (res_headers r)\<rparr>
         else if str_includes contentType ''json'' \<or> str_includes contentType ''html'' then
           r\<lparr>res_headers := headers_set ''Cache-Control'' ''private, max-age=0, must-revalidate'' (res_headers r)\<rparr>
         else
           r\<lparr>res_headers := headers_set ''Cache-Control'' ''private, no-store'' (res_headers r)\<rparr>)"

section \<open>Numbers\<close>

text \<open>
  A JavaScript number is an IEEE 754 binary64 value: a finite double, modelled by the
  rational it denotes, an infinity or \<open>NaN\<close>. The two zeros are one value: the
  handler tests a number for truth, takes a maximum, divides by and multiplies with
  the sizes of an image, which are never the negative zero, and rounds up, and none
  of these tells the zeros apart.

  \<open>fl64\<close> rounds an exact result to the nearest double, ties to even: to 53
  significant bits, below \<open>2 ^ -1022\<close> to a multiple of \<open>2 ^ -1074\<close> (subnormal
  numbers, underflow to zero), and to an infinity when the rounded magnitude reaches
  \<open>2 ^ 1024\<close>, that is when its binary logarithm is at least 1024.
\<close>

datatype jsnum = Fin rat | PosInf | NegInf | NaN

definition pow2 :: "int \<Rightarrow> rat" where
  "pow2 e = (if 0 \<le> e then 2 ^ nat e else 1 / 2 ^ nat (- e))"

definition floorLog2 :: "rat \<Rightarrow> int" where
  "floorLog2 x =
     (let d = bitlen (fst (quotient_of x)) - bitlen (snd (quotient_of x))
      in if pow2 d \<le> x then d else d - 1)"

definition roundHalfEven :: "rat \<Rightarrow> int" where
  "roundHalfEven q =
     (let f = \<lfloor>q\<rfloor>; r = q - of_int f
      in if r < 1 / 2 then f
         else if 1 / 2 < r then f + 1
         else if even f then f else f + 1)"

definition fl64 :: "rat \<Rightarrow> jsnum" where
  "fl64 x =
     (if x = 0 then Fin 0
      else let u = pow2 (max (floorLog2 \<bar>x\<bar>) (- 1022) - 52);
               r = of_int (roundHalfEven (x / u)) * u
           in if r \<noteq> 0 \<and> 1024 \<le> floorLog2 \<bar>r\<bar> then (if 0 < x then PosInf else NegInf)
              else Fin r)"

text \<open>
  The operators \<open>/\<close> and \<open>*\<close>, \<open>Math.max\<close> of two arguments, \<open>x || 1\<close> and
  \<open>Math.ceil\<close>. A zero divisor is the positive zero.
\<close>

fun js_div :: "jsnum \<Rightarrow> jsnum \<Rightarrow> jsnum" where
  "js_div NaN b = NaN"
| "js_div a NaN = NaN"
| "js_div (Fin x) (Fin y) =
     (if y = 0 then (if x = 0 then NaN else if 0 < x then PosInf else NegInf)
      else fl64 (x / y))"
| "js_div (Fin x) b = Fin 0"
| "js_div PosInf (Fin y) = (if y < 0 then NegInf else PosInf)"
| "js_div NegInf (Fin y) = (if y < 0 then PosInf else NegInf)"
| "js_div a b = NaN"

fun js_mul :: "jsnum \<Rightarrow> jsnum \<Rightarrow> jsnum" where
  "js_mul NaN b = NaN"
| "js_mul a NaN = NaN"
| "js_mul (Fin x) (Fin y) = fl64 (x * y)"
| "js_mul (Fin x) PosInf = (if x = 0 then NaN else if 0 < x then PosInf else NegInf)"
| "js_mul (Fin x) NegInf = (if x = 0 then NaN else if 0 < x then NegInf else PosInf)"
| "js_mul PosInf (Fin y) = (if y = 0 then NaN else if 0 < y then PosInf else NegInf)"
| "js_mul NegInf (Fin y) = (if y = 0 then NaN else if 0 < y then NegInf else PosInf)"
| "js_mul PosInf PosInf = PosInf"
| "js_mul PosInf NegInf = NegInf"
| "js_mul NegInf PosInf = NegInf"
| "js_mul NegInf NegInf = PosInf"

fun js_max :: "jsnum \<Rightarrow> jsnum \<Rightarrow> jsnum" where
  "js_max NaN b = NaN"
| "js_max a NaN = NaN"
| "js_max PosInf b = PosInf"
| "js_max a PosInf = PosInf"
| "js_max NegInf b = b"
| "js_max a NegInf = a"
| "js_max (Fin x) (Fin y) = Fin (max x y)"

definition js_or_one :: "jsnum \<Rightarrow> jsnum" where
  "js_or_one x = (if x = NaN \<or> x = Fin 0 then Fin 1 else x)"

fun js_ceil :: "jsnum \<Rightarrow> jsnum" where
  "js_ceil (Fin x) = Fin (of_int \<lceil>x\<rceil>)"
| "js_ceil a = a"

section \<open>The image handler\<close>

subsection \<open>Paths and the asset store\<close>

text \<open>
  \<open>path.extname\<close> and the \<open>name\<close> of \<open>path.parse\<close>, for a file name without a
  directory separator: the extension starts at the last dot, unless that dot is the
  first character. The route's validator admits only \<open>/^[a-f0-9-]+(?:\.\w*)?$/\<close>.
\<close>

definition extname :: "string \<Rightarrow> string" where
  "extname p =
     (let i = length (dropWhile (\<lambda>c. c \<noteq> CHR ''.'') (rev p))
      in if i \<le> 1 then [] else drop (i - 1) p)"

definition parse_name :: "string \<Rightarrow> string" where
  "parse_name p = take (length p - length (extname p)) p"

text \<open>
  The asset store is the flat directory \<open>IMAGES_PATH\<close>: its files with their
  contents, listed in the order in which \<open>globby\<close> reports matches. The two patterns
  are \<open><id>\<close> and \<open><id>.*\<close>; the handler takes the first match.
\<close>

type_synonym store = "(string \<times> bytes) list"

definition globMatch :: "string \<Rightarrow> string \<Rightarrow> bool" where
  "globMatch imgId name = (name = imgId \<or> prefix (imgId @ ''.'') name)"

definition globby :: "store \<Rightarrow> string \<Rightarrow> (string \<times> bytes) option" where
  "globby st imgId = find (\<lambda>f. globMatch imgId (fst f)) st"

definition fs_access :: "store \<Rightarrow> string \<Rightarrow> bool" where
  "fs_access st name = (name \<in> set (map fst st))"

subsection \<open>Formats\<close>

definition SUPPORTED_IMAGE_EXTENSIONS :: "string list" where
  "SUPPORTED_IMAGE_EXTENSIONS = [''jxl'', ''avif'', ''webp'', ''png'', ''jpeg'', ''jpg'']"

definition isSupportedImageFormat :: "string \<Rightarrow> bool" where
  "isSupportedImageFormat ext = (ext \<in> set SUPPORTED_IMAGE_EXTENSIONS)"

text \<open>The table is read at supported tags only; the last case is never reached.\<close>

definition IMAGE_MIME_TYPE :: "string \<Rightarrow> string" where
  "IMAGE_MIME_TYPE ext =
     (if ext = ''avif'' then ''image/avif''
      else if ext = ''jpeg'' then ''image/jpeg''
      else if ext = ''jpg'' then ''image/jpeg''
      else if ext = ''jxl'' then ''image/jxl''
      else if ext = ''png'' then ''image/png''
      else if ext = ''webp'' then ''image/webp''
      else [])"

subsection \<open>The response cache\<close>

text \<open>
  \<open>IMAGE_CACHE\<close> is a \<open>Map\<close>: an association list in insertion order, in which
  \<open>set\<close> on a present key replaces the value in place and on a new key appends,
  \<open>delete\<close> removes the key and \<open>size\<close> is the length. Times are milliseconds,
  as \<open>Date.now()\<close> returns them.
\<close>

record CacheEntry =
  data :: bytes
  mimeType :: string
  timestamp :: int

type_synonym cache = "(string \<times> CacheEntry) list"

definition MAX_CACHE_SIZE :: nat where
  "MAX_CACHE_SIZE = 100"

definition CACHE_TTL :: int where
  "CACHE_TTL = 60 * 60 * 1000"

text \<open>
  The loop of \<open>evictOldestEntry\<close> carries \<open>(oldestKey, oldestTime)\<close>, which start
  as \<open>null\<close> and the clock reading \<open>now\<close>. The final test \<open>if (oldestKey)\<close> is
  false for \<open>null\<close> and for the empty string.
\<close>

definition evict_step :: "string option \<times> int \<Rightarrow> string \<times> CacheEntry \<Rightarrow> string option \<times> int" where
  "evict_step st kv =
     (if timestamp (snd kv) < snd st then (Some (fst kv), timestamp (snd kv)) else st)"

definition evictOldestEntry :: "int \<Rightarrow> cache \<Rightarrow> cache" where
  "evictOldestEntry now c =
     (case fst (foldl evict_step (None, now) c) of
        None \<Rightarrow> c
      | Some k \<Rightarrow> if k = [] then c else AList.delete k c)"

text \<open>Lines 255 to 263: make room when the cache is full, then store the entry.\<close>

definition cache_store :: "int \<Rightarrow> int \<Rightarrow> string \<Rightarrow> bytes \<Rightarrow> string \<Rightarrow> cache \<Rightarrow> cache" where
  "cache_store now_evict now_insert cacheKey resBinary mime c =
     (let c1 = (if length c \<ge> MAX_CACHE_SIZE then evictOldestEntry now_evict c else c)
      in AList.update cacheKey \<lparr>data = resBinary, mimeType = mime, timestamp = now_insert\<rparr> c1)"

text \<open>Lines 218 and 219: the entry under the key, when it is younger than the TTL.\<close>

definition cache_lookup :: "int \<Rightarrow> string \<Rightarrow> cache \<Rightarrow> CacheEntry option" where
  "cache_lookup now cacheKey c =
     (case map_of c cacheKey of
        None \<Rightarrow> None
      | Some cached \<Rightarrow> if now - timestamp cached < CACHE_TTL then Some cached else None)"

subsection \<open>Resizing\<close>

text \<open>
  Lines 240 to 245, for the validated \<open>width\<close> and \<open>height\<close> (numbers as
  \<open>z.coerce.number()\<close> admits them, the infinities included, or absent) and the
  sizes of the decoded image. \<open>x ?? 0\<close> is 0 for an absent \<open>x\<close>. The result is the
  pair (width, height) handed to \<open>image.resize\<close>.
\<close>

definition orZero :: "jsnum option \<Rightarrow> jsnum" where
  "orZero x = (case x of None \<Rightarrow> Fin 0 | Some v \<Rightarrow> v)"

definition resizeScale :: "jsnum option \<Rightarrow> jsnum option \<Rightarrow> nat \<Rightarrow> nat \<Rightarrow> jsnum" where
  "resizeScale w h imgW imgH =
     js_or_one (js_max (js_div (orZero w) (Fin (of_nat imgW)))
                       (js_div (orZero h) (Fin (of_nat imgH))))"

definition resizeDims :: "jsnum option \<Rightarrow> jsnum option \<Rightarrow> nat \<Rightarrow> nat \<Rightarrow> jsnum \<times> jsnum" where
  "resizeDims w h imgW imgH =
     (let scale = resizeScale w h imgW imgH
      in (js_ceil (js_mul (Fin (of_nat imgW)) scale), js_ceil (js_mul (Fin (of_nat imgH)) scale)))"

subsection \<open>Requests, replies and the environment\<close>

record image =
  img_width :: nat
  img_height :: nat
  img_data :: bytes

text \<open>
  What a request meets outside the handler: the asset store, the converters of
  \<open>IMAGE_CONVERTER\<close> by format tag and \<open>image.resize\<close> of image-js (each may
  throw, here \<open>None\<close>), the conversion of a number to a string in the cache key,
  and the three readings of \<open>Date.now()\<close>: at the cache check, in
  \<open>evictOldestEntry\<close> and at the insertion.
\<close>

record env =
  files :: store
  decode :: "string \<Rightarrow> bytes \<Rightarrow> image option"
  resize :: "image \<Rightarrow> jsnum \<Rightarrow> jsnum \<Rightarrow> image option"
  encode :: "string \<Rightarrow> image \<Rightarrow> bytes option"
  numToString :: "jsnum \<Rightarrow> string"
  now_lookup :: int
  now_evict :: int
  now_insert :: int

text \<open>The validated request: the path parameter, the Accept header and the query.\<close>

record request =
  imageFile :: string
  accept :: "string option"
  format :: "string option"
  height :: "jsnum option"
  width :: "jsnum option"

record reply =
  status :: nat
  headers :: headers
  body :: bytes

definition httpException :: "nat \<Rightarrow> reply" where
  "httpException code = \<lparr>status = code, headers = [], body = []\<rparr>"

definition truthy :: "string option \<Rightarrow> bool" where
  "truthy v = (case v of None \<Rightarrow> False | Some s \<Rightarrow> s \<noteq> [])"

subsection \<open>Format negotiation\<close>

text \<open>Lines 171 to 189: the format of the response.\<close>

definition negotiate :: "store \<Rightarrow> request \<Rightarrow> string" where
  "negotiate st req =
     (let reqImgExt = extname (imageFile req);
          reqImgId = parse_name (imageFile req);
          acceptHeader = or_default (accept req) [];
          acceptsWebP = str_includes acceptHeader ''image/webp'';
          resImgFormat = (case format req of Some f \<Rightarrow> f | None \<Rightarrow> drop 1 reqImgExt)
      in if \<not> truthy (format req) \<and> acceptsWebP \<and> resImgFormat \<noteq> ''webp''
            \<and> fs_access st (reqImgId @ ''.webp'')
         then ''webp'' else resImgFormat)"

subsection \<open>The handler\<close>

definition cacheKeyOf ::
  "(jsnum \<Rightarrow> string) \<Rightarrow> string \<Rightarrow> string \<Rightarrow> jsnum option \<Rightarrow> jsnum option \<Rightarrow> string" where
  "cacheKeyOf toStr reqImgId resImgFormat w h =
     reqImgId @ ''_'' @ resImgFormat @ ''_''
       @ (case w of None \<Rightarrow> ''auto'' | Some x \<Rightarrow> toStr x) @ ''_''
       @ (case h of None \<Rightarrow> ''auto'' | Some x \<Rightarrow> toStr x)"

text \<open>
  Lines 235 to 245: the image \<open>manipulated\<close>, whose data and sizes are handed to the
  encoder. The constructor \<open>Image\<close> of image-js throws unless both sizes are positive
  integers.
\<close>

definition manipulate :: "env \<Rightarrow> string \<Rightarrow> bytes \<Rightarrow> request \<Rightarrow> image option" where
  "manipulate e origImgFormat origBinary req =
     (case decode e origImgFormat origBinary of
        None \<Rightarrow> None
      | Some img \<Rightarrow>
          if img_width img = 0 \<or> img_height img = 0 then None
          else
            (let dims = resizeDims (width req) (height req) (img_width img) (img_height img)
             in resize e img (fst dims) (snd dims)))"

text \<open>Lines 235 to 252: the encoded bytes, unless a step throws.\<close>

definition transcode :: "env \<Rightarrow> string \<Rightarrow> string \<Rightarrow> bytes \<Rightarrow> request \<Rightarrow> bytes option" where
  "transcode e origImgFormat resImgFormat origBinary req =
     (case manipulate e origImgFormat origBinary req of
        None \<Rightarrow> None
      | Some manipulated \<Rightarrow> encode e resImgFormat manipulated)"

definition negotiatedVary :: "string \<Rightarrow> request \<Rightarrow> headers \<Rightarrow> headers" where
  "negotiatedVary resImgFormat req h =
     (if resImgFormat = ''webp'' \<and> \<not> truthy (format req)
      then headers_set ''Vary'' ''Accept'' h else h)"

text \<open>
  The handler of \<open>GET /images/:imageFile\<close>: the reply and the cache afterwards.
  An \<open>HTTPException\<close> gives its status; any other exception gives 500.
\<close>

definition imageApp :: "env \<Rightarrow> request \<Rightarrow> cache \<Rightarrow> reply \<times> cache" where
  "imageApp e req c =
     (let reqImgId = parse_name (imageFile req);
          resImgFormat = negotiate (files e) req
      in if \<not> isSupportedImageFormat resImgFormat then (httpException 501, c)
         else case globby (files e) reqImgId of
           None \<Rightarrow> (httpException 404, c)
         | Some origFile \<Rightarrow>
             (let origImgFormat = drop 1 (extname (fst origFile))
              in if \<not> isSupportedImageFormat origImgFormat then (httpException 500, c)
                 else if resImgFormat = ''webp'' \<and> origImgFormat = ''webp''
                         \<and> width req = None \<and> height req = None then
                   (\<lparr>status = 200,
                     headers = headers_set ''Vary'' ''Accept''
                                (headers_set ''X-Cache'' ''BYPASS''
                                  (headers_set ''Content-Type'' (IMAGE_MIME_TYPE ''webp'') [])),
                     body = snd origFile\<rparr>, c)
                 else
                   (let cacheKey = cacheKeyOf (numToString e) reqImgId resImgFormat (width req) (height req)
                    in case cache_lookup (now_lookup e) cacheKey c of
                         Some cached \<Rightarrow>
                           (\<lparr>status = 200,
                             headers = negotiatedVary resImgFormat req
                                        (headers_set ''X-Cache'' ''HIT''
                                          (headers_set ''Content-Type'' (mimeType cached) [])),
                             body = data cached\<rparr>, c)
                       | None \<Rightarrow>
                           if resImgFormat = origImgFormat \<and> width req = None \<and> height req = None then
                             (\<lparr>status = 200,
                               headers = headers_set ''X-Cache'' ''BYPASS''
                                          (headers_set ''Content-Type'' (IMAGE_MIME_TYPE resImgFormat) []),
                               body = snd origFile\<rparr>, c)
                           else
                             (case transcode e origImgFormat resImgFormat (snd origFile) req of
                                None \<Rightarrow> (httpException 500, c)
                              | Some resBinary \<Rightarrow>
                                  (\<lparr>status = 200,
                                    headers = negotiatedVary resImgFormat req
                                               (headers_set ''X-Cache'' ''MISS''
                                                 (headers_set ''Content-Type'' (IMAGE_MIME_TYPE resImgFormat) [])),
                                    body = resBinary\<rparr>,
                                   cache_store (now_evict e) (now_insert e) cacheKey resBinary
                                     (IMAGE_MIME_TYPE resImgFormat) c)))))"

subsection \<open>Sequences of requests\<close>

text \<open>Requests served one after the other, each in its own environment.\<close>

fun serveAll :: "(env \<times> request) list \<Rightarrow> cache \<Rightarrow> reply list \<times> cache" where
  "serveAll [] c = ([], c)"
| "serveAll (er # rest) c =
     (let rc = imageApp (fst er) (snd er) c;
          rest' = serveAll rest (snd rc)
      in (fst rc # fst rest', snd rest'))"

definition xCache :: "reply \<Rightarrow> string option" where
  "xCache r = headers_get (headers r) ''X-Cache''"

section \<open>The resize rule in the words of the specification\<close>




section \<open>The resampler and the encoders\<close>

text \<open>
  Modelled from the spec: the resize of section 4.2, which the handler reaches as
  \<open>image.resize\<close> of image-js and which is not part of the source. Its output has
  the sizes it was asked for: whenever it returns a pixel buffer for a width and a
  height that are positive integers, the buffer has that width and that height.
\<close>

definition resizeContract :: "(image \<Rightarrow> jsnum \<Rightarrow> jsnum \<Rightarrow> image option) \<Rightarrow> bool" where
  "resizeContract rs =
     (\<forall>img w h m. 0 < w \<longrightarrow> 0 < h \<longrightarrow> rs img (Fin (of_nat w)) (Fin (of_nat h)) = Some m
        \<longrightarrow> img_width m = w \<and> img_height m = h)"

text \<open>
  Modelled from the spec: the encoders of section 4.1, which are not part of the
  source, fail with \<open>EncodeError\<close> on a buffer whose width or height is zero or
  negative. Sizes are natural numbers here, so this branch is taken on a zero size.
\<close>

definition encodeRejectsSize :: "image \<Rightarrow> bool" where
  "encodeRejectsSize img = (img_width img = 0 \<or> img_height img = 0)"

section \<open>Concrete inputs\<close>

text \<open>
  Stand-ins for the converters, the resampler and the compressor, and the inputs at
  which the theorems below are evaluated.
\<close>

definition ex_decode :: "string \<Rightarrow> bytes \<Rightarrow> image option" where
  "ex_decode fmt bin = Some \<lparr>img_width = 200, img_height = 200, img_data = bin\<rparr>"

definition ex_decode_fails :: "string \<Rightarrow> bytes \<Rightarrow> image option" where
  "ex_decode_fails fmt bin = None"

fun ex_resize :: "image \<Rightarrow> jsnum \<Rightarrow> jsnum \<Rightarrow> image option" where
  "ex_resize img (Fin w) (Fin h) =
     (if 0 < w \<and> 0 < h \<and> w = of_int \<lfloor>w\<rfloor> \<and> h = of_int \<lfloor>h\<rfloor>
      then Some \<lparr>img_width = nat \<lfloor>w\<rfloor>, img_height = nat \<lfloor>h\<rfloor>, img_data = img_data img\<rparr>
      else None)"
| "ex_resize img w h = None"

definition ex_encode :: "string \<Rightarrow> image \<Rightarrow> bytes option" where
  "ex_encode fmt img = Some (img_data img)"

definition ex_numToString :: "jsnum \<Rightarrow> string" where
  "ex_numToString x = ''100''"


definition ex_env :: "store \<Rightarrow> int \<Rightarrow> env" where
  "ex_env st t =
     \<lparr>files = st, decode = ex_decode, resize = ex_resize, encode = ex_encode,
      numToString = ex_numToString, now_lookup = t, now_evict = t, now_insert = t\<rparr>"

definition ex_env_broken :: "store \<Rightarrow> int \<Rightarrow> env" where
  "ex_env_broken st t =
     \<lparr>files = st, decode = ex_decode_fails, resize = ex_resize, encode = ex_encode,
      numToString = ex_numToString, now_lookup = t, now_evict = t, now_insert = t\<rparr>"

definition ex_request :: "string \<Rightarrow> string option \<Rightarrow> string option \<Rightarrow> request" where
  "ex_request file acc fmt =
     \<lparr>imageFile = file, accept = acc, format = fmt, height = None, width = None\<rparr>"

text \<open>
  A hundred entries, stored one after the other at the clock reading 1000 into the
  empty cache, under the keys of the images \<open>a\<close>, \<open>aa\<close>, \<open>aaa\<close> and so on.
\<close>

definition ex_key :: "nat \<Rightarrow> string" where
  "ex_key i = replicate (Suc i) (CHR ''a'') @ ''_png_auto_auto''"

definition ex_entry :: "int \<Rightarrow> CacheEntry" where
  "ex_entry t = \<lparr>data = [], mimeType = ''image/png'', timestamp = t\<rparr>"

definition ex_full_cache :: cache where
  "ex_full_cache =
     foldl (\<lambda>c i. cache_store 1000 1000 (ex_key i) [] ''image/png'' c) [] [0..<100]"

section \<open>The middlewares\<close>

lemma headers_get_set:
  "headers_get (headers_set k v h) k' = (if k' = k then Some v else headers_get h k')"
  by (simp add: headers_get_def headers_set_def update_conv')



text \<open>
  Claim C9: the Cache-Control stage leaves exactly one \<open>Cache-Control\<close> value on
  every response, whatever was there before: the long-lived public value for an image
  content type, a URL containing \<open>/images/\<close> or \<open>/assets/\<close>, or a javascript or css
  content type; failing that, the private revalidating value for a json or html
  content type; and \<open>private, no-store\<close> for everything else. The classes are taken
  in this order, the first that applies deciding. The body and the other headers are
  not touched.
\<close>

theorem cacheControl_classification:
  "(let ct = or_default (headers_get (res_headers r) ''Content-Type'') [];
        r' = cacheControlMiddleware url r;
        cc = headers_get (res_headers r') ''Cache-Control'';
        longLived = (startsWith ct ''image/'' \<or> str_includes url ''/images/''
                     \<or> str_includes url ''/assets/'' \<or> str_includes ct ''javascript''
                     \<or> str_includes ct ''css'');
        revalidated = (str_includes ct ''json'' \<or> str_includes ct ''html'')
    in (longLived \<longrightarrow> cc = Some ''public, max-age=31536000, immutable'')
     \<and> (\<not> longLived \<and> revalidated \<longrightarrow> cc = Some ''private, max-age=0, must-revalidate'')
     \<and> (\<not> longLived \<and> \<not> revalidated \<longrightarrow> cc = Some ''private, no-store'')
     \<and> res_body r' = res_body r
     \<and> (\<forall>name. name \<noteq> ''Cache-Control'' \<longrightarrow>
            headers_get (res_headers r') name = headers_get (res_headers r) name))"
  by (simp add: cacheControlMiddleware_def Let_def headers_get_set)

theorem cacheControl_classification_witness:
  "\<not> startsWith ''application/json'' ''image/''
   \<and> \<not> str_includes ''http://localhost:8000/api/v1/books'' ''/images/''
   \<and> str_includes ''application/json'' ''json''
   \<and> headers_get (res_headers (cacheControlMiddleware ''http://localhost:8000/api/v1/books''
         \<lparr>res_headers = [(''Content-Type'', ''application/json''), (''Cache-Control'', ''no-transform'')],
          res_body = Some [[1, 2, 3]]\<rparr>)) ''Cache-Control''
       = Some ''private, max-age=0, must-revalidate''"
proof -
  let ?url = "''http://localhost:8000/api/v1/books''"
  let ?r = "\<lparr>res_headers = [(''Content-Type'', ''application/json''), (''Cache-Control'', ''no-transform'')],
          res_body = Some [[1, 2, 3 :: 8 word]]\<rparr>"
  have ct: "or_default (headers_get [(''Content-Type'', ''application/json''),
              (''Cache-Control'', ''no-transform'')] ''Content-Type'') [] = ''application/json''"
    by (simp add: or_default_def headers_get_def)
  have a: "\<not> startsWith ''application/json'' ''image/''" by (simp add: startsWith_def)
  have b: "\<not> str_includes ?url ''/images/''" by simp
  have c: "\<not> str_includes ?url ''/assets/''" by simp
  have d: "\<not> str_includes ''application/json'' ''javascript''" by simp
  have e: "\<not> str_includes ''application/json'' ''css''" by simp
  have f: "str_includes ''application/json'' ''json''" by simp
  show ?thesis
    using cacheControl_classification [of ?r ?url] a b c d e f
    by (simp add: Let_def ct)
qed




text \<open>The no-break space is white space: a length written after it is read.\<close>

lemma parseInt_no_break_space: "parseInt [CHR 0xA0, CHR ''5'', CHR ''0'', CHR ''0''] = Some 500"
  by (simp add: parseInt_def isWhiteSpace_def isDigitOf_def digitValue_def digitsValue_def Let_def)




section \<open>Format negotiation\<close>

text \<open>
  What \<open>negotiate\<close> computes. The Accept header counts when it contains the text
  \<open>image/webp\<close>, and a \<open>format\<close> parameter counts as given when it is not empty.
\<close>

lemma negotiate_cases:
  "(let derived = (case format req of Some f \<Rightarrow> f | None \<Rightarrow> drop 1 (extname (imageFile req)));
        sibling = (str_includes (or_default (accept req) []) ''image/webp''
                   \<and> derived \<noteq> ''webp''
                   \<and> fs_access st (parse_name (imageFile req) @ ''.webp''))
    in (\<forall>f. format req = Some f \<and> f \<noteq> [] \<longrightarrow> negotiate st req = f)
     \<and> (\<not> truthy (format req) \<and> sibling \<longrightarrow> negotiate st req = ''webp'')
     \<and> (\<not> truthy (format req) \<and> \<not> sibling \<longrightarrow> negotiate st req = derived))"
  by (auto simp: negotiate_def Let_def truthy_def simp del: str_includes.simps)

text \<open>
  Claim C5 (the format is the explicit \<open>format\<close> parameter when present; otherwise
  webp when the Accept header signals webp support, the format of the request path is
  not webp and \<open><imageId>.webp\<close> exists; otherwise the format of the request path),
  evaluated where the code breaks it. The store holds \<open>aa.png\<close> and \<open>aa.webp\<close> and
  the request is for \<open>aa.png\<close>. With \<open>Accept: image/png,image/webp;q=0\<close>, which
  refuses webp, the format is webp. With \<open>Accept: */*\<close>, which accepts webp, the
  format is png. With \<open>Accept: image/webp\<close> and a \<open>format\<close> parameter that is
  present and empty, the format is webp and not the parameter.
\<close>

theorem negotiate_accept_and_empty_format:
  "negotiate [(''aa.png'', [1]), (''aa.webp'', [2])]
        (ex_request ''aa.png'' (Some ''image/png,image/webp;q=0'') None) = ''webp''
   \<and> negotiate [(''aa.png'', [1]), (''aa.webp'', [2])]
        (ex_request ''aa.png'' (Some ''*/*'') None) = ''png''
   \<and> format (ex_request ''aa.png'' (Some ''image/webp'') (Some [])) = Some []
   \<and> negotiate [(''aa.png'', [1]), (''aa.webp'', [2])]
        (ex_request ''aa.png'' (Some ''image/webp'') (Some [])) = ''webp''"
  by (simp add: negotiate_def ex_request_def Let_def truthy_def or_default_def fs_access_def
      extname_def parse_name_def)

section \<open>Resizing\<close>

lemma roundHalfEven_of_int: "roundHalfEven (of_int n) = n"
  by (simp add: roundHalfEven_def Let_def)

lemma floorLog2_of_nat:
  assumes "0 < n"
  shows "floorLog2 (of_nat n) = bitlen (int n) - 1"
proof -
  have q: "quotient_of (of_nat n) = (int n, 1)"
    using quotient_of_rat_of_int [of "int n"] by simp
  have b1: "bitlen 1 = 1"
    by (simp add: compute_bitlen)
  have pos: "0 < int n" using assms by simp
  have ge: "1 \<le> bitlen (int n)"
    using pos bitlen_eq_zero_iff [of "int n"] bitlen_nonneg [of "int n"] by linarith
  have "(2::int) ^ nat (bitlen (int n) - 1) \<le> int n"
    using bitlen_bounds [OF pos] by simp
  then have "(of_int ((2::int) ^ nat (bitlen (int n) - 1)) :: rat) \<le> of_int (int n)"
    by (simp only: of_int_le_iff)
  then have "pow2 (bitlen (int n) - 1) \<le> of_nat n"
    using ge by (simp add: pow2_def)
  then show ?thesis
    by (simp add: floorLog2_def Let_def q b1)
qed

text \<open>A positive integer below \<open>2 ^ 53\<close> is a double: rounding leaves it alone.\<close>

lemma fl64_of_nat:
  assumes "0 < n" and "n < 2 ^ 53"
  shows "fl64 (of_nat n) = Fin (of_nat n)"
proof -
  define k where "k = bitlen (int n)"
  have pos: "0 < int n" using assms by simp
  have ge: "1 \<le> k"
    unfolding k_def using pos bitlen_eq_zero_iff [of "int n"] bitlen_nonneg [of "int n"] by linarith
  have le: "k \<le> 53"
    unfolding k_def using assms(2) less_power_nat_iff_bitlen [of n 53] by simp
  have fl: "floorLog2 (of_nat n) = k - 1"
    using floorLog2_of_nat [OF assms(1)] by (simp add: k_def)
  have mx: "max (k - 1) (- 1022) = k - 1"
    using ge by simp
  define m where "m = nat (53 - k)"
  have u: "pow2 (k - 1 - 52) = 1 / 2 ^ m"
    using ge le by (auto simp: pow2_def m_def)
  have "of_nat n / (1 / 2 ^ m) = (of_int (int n * 2 ^ m) :: rat)"
    by simp
  then have r: "roundHalfEven (of_nat n / (1 / 2 ^ m)) = int n * 2 ^ m"
    using roundHalfEven_of_int [of "int n * 2 ^ m"] by simp
  have inv: "(of_int (int n * 2 ^ m) :: rat) * (1 / 2 ^ m) = of_nat n"
    by simp
  have nz: "(of_nat n :: rat) \<noteq> 0" using assms(1) by simp
  have small: "\<not> 1024 \<le> floorLog2 (of_nat n)"
    using fl le by simp
  have "fl64 (of_nat n)
          = (let u = pow2 (max (floorLog2 (of_nat n)) (- 1022) - 52);
                 r = of_int (roundHalfEven (of_nat n / u)) * u
             in if r \<noteq> 0 \<and> 1024 \<le> floorLog2 \<bar>r\<bar>
                then (if 0 < (of_nat n :: rat) then PosInf else NegInf) else Fin r)"
    using nz by (simp add: fl64_def)
  also have "\<dots> = Fin (of_nat n)"
    unfolding Let_def fl mx u r inv using small by simp
  finally show ?thesis .
qed

lemma fl64_zero: "fl64 0 = Fin 0"
  by (simp add: fl64_def)

lemma pow2_powi: "pow2 e = 2 powi e"
proof (cases "0 \<le> e")
  case True
  then show ?thesis
    by (simp add: pow2_def power_int_def)
next
  case False
  have "(1::rat) / 2 ^ nat (- e) = inverse 2 ^ nat (- e)"
    by (simp add: inverse_eq_divide power_divide)
  with False show ?thesis
    by (simp only: pow2_def power_int_def if_False)
qed

lemma pow2_pos: "0 < pow2 e"
  unfolding pow2_powi by simp

lemma pow2_mono: "a \<le> b \<Longrightarrow> pow2 a \<le> pow2 b"
  unfolding pow2_powi by (rule power_int_increasing) simp_all

lemma pow2_half: "pow2 (e - 1) = pow2 e / 2"
  unfolding pow2_powi using power_int_diff [of "2::rat" e 1] by simp

text \<open>\<open>floorLog2\<close> does not overshoot: two to that power is at most the number.\<close>

lemma pow2_floorLog2_le:
  assumes "0 < x"
  shows "pow2 (floorLog2 x) \<le> x"
proof -
  obtain p q where pq: "quotient_of x = (p, q)"
    by (cases "quotient_of x") auto
  have q: "0 < q"
    using quotient_of_denom_pos [OF pq] .
  have x: "x = of_int p / of_int q"
    using quotient_of_div [OF pq] .
  have p: "0 < p"
    using assms q unfolding x by (simp add: zero_less_divide_iff)
  define d where "d = bitlen p - bitlen q"
  have bp: "(2::int) ^ nat (bitlen p - 1) \<le> p" and bq: "q \<le> (2::int) ^ nat (bitlen q)"
    using bitlen_bounds [OF p] bitlen_bounds [OF q] by simp_all
  have gp: "1 \<le> bitlen p" and gq: "1 \<le> bitlen q"
    using p q bitlen_eq_zero_iff [of p] bitlen_eq_zero_iff [of q]
      bitlen_nonneg [of p] bitlen_nonneg [of q] by linarith+
  have lo: "(2::rat) powi (bitlen p - 1) \<le> of_int p"
  proof -
    have "(of_int ((2::int) ^ nat (bitlen p - 1)) :: rat) \<le> of_int p"
      using bp by (simp only: of_int_le_iff)
    moreover have "(2::rat) powi (bitlen p - 1) = 2 ^ nat (bitlen p - 1)"
      using gp by (simp add: power_int_def)
    ultimately show ?thesis by simp
  qed
  have hi: "(of_int q :: rat) \<le> 2 powi (bitlen q)"
  proof -
    have "(of_int q :: rat) \<le> of_int ((2::int) ^ nat (bitlen q))"
      using bq by (simp only: of_int_le_iff)
    moreover have "(2::rat) powi (bitlen q) = 2 ^ nat (bitlen q)"
      using gq by (simp add: power_int_def)
    ultimately show ?thesis by simp
  qed
  have "pow2 (d - 1) = 2 powi (bitlen p - 1) / 2 powi (bitlen q)"
    unfolding pow2_powi d_def
    using power_int_diff [of "2::rat" "bitlen p - 1" "bitlen q"] by (simp add: algebra_simps)
  also have "\<dots> \<le> of_int p / of_int q"
    using lo hi q p by (intro frac_le) simp_all
  finally have low: "pow2 (d - 1) \<le> x"
    unfolding x .
  show ?thesis
    using low by (simp add: floorLog2_def Let_def pq d_def)
qed

lemma roundHalfEven_small: "0 \<le> y \<Longrightarrow> y < 1 / 2 \<Longrightarrow> roundHalfEven y = 0"
proof -
  assume a: "0 \<le> y" "y < 1 / 2"
  then have "\<lfloor>y\<rfloor> = 0"
    by (simp add: floor_eq_iff)
  with a show ?thesis
    by (simp add: roundHalfEven_def Let_def)
qed

lemma below_half: "0 < u \<Longrightarrow> x < u / 2 \<Longrightarrow> x / u < 1 / (2::rat)"
  by (simp add: field_simps)

text \<open>
  Below half of the smallest subnormal number, \<open>pow2 (- 1074)\<close>, a positive result
  rounds to zero.
\<close>

lemma fl64_underflow:
  assumes "0 < x" and "x < pow2 (- 1075)"
  shows "fl64 x = Fin 0"
proof -
  have "\<not> - 1075 \<le> floorLog2 x"
  proof
    assume "- 1075 \<le> floorLog2 x"
    then have "pow2 (- 1075) \<le> pow2 (floorLog2 x)"
      by (rule pow2_mono)
    with pow2_floorLog2_le [OF assms(1)] assms(2) show False
      by (meson leD order_trans)
  qed
  then have mx: "max (floorLog2 x) (- 1022) - 52 = - 1074"
    by simp
  have h: "pow2 (- 1075) = pow2 (- 1074) / 2"
    using pow2_half [of "- 1074"] by simp
  have "x / pow2 (- 1074) < 1 / 2"
    using pow2_pos [of "- 1074"] assms(2) unfolding h by (rule below_half)
  moreover have "0 \<le> x / pow2 (- 1074)"
    using assms(1) pow2_pos [of "- 1074"] by simp
  ultimately have r: "roundHalfEven (x / pow2 (- 1074)) = 0"
    by (simp add: roundHalfEven_small)
  have "fl64 x
          = (let u = pow2 (max (floorLog2 x) (- 1022) - 52);
                 r = of_int (roundHalfEven (x / u)) * u
             in if r \<noteq> 0 \<and> 1024 \<le> floorLog2 \<bar>r\<bar>
                then (if 0 < x then PosInf else NegInf) else Fin r)"
    using assms(1) by (simp add: fl64_def)
  also have "\<dots> = Fin 0"
    unfolding Let_def mx r by simp
  finally show ?thesis .
qed

lemma resizeDims_identity:
  assumes "w = None \<or> w = Some (Fin 0)" and "h = None \<or> h = Some (Fin 0)"
    and "0 < imgW" and "imgW < 2 ^ 53" and "0 < imgH" and "imgH < 2 ^ 53"
  shows "resizeScale w h imgW imgH = Fin 1"
    and "resizeDims w h imgW imgH = (Fin (of_nat imgW), Fin (of_nat imgH))"
proof -
  have z: "orZero w = Fin 0" "orZero h = Fin 0"
    using assms(1,2) by (auto simp: orZero_def)
  show sc: "resizeScale w h imgW imgH = Fin 1"
    using assms(3,5) by (simp add: resizeScale_def z fl64_zero js_or_one_def)
  show "resizeDims w h imgW imgH = (Fin (of_nat imgW), Fin (of_nat imgH))"
    using fl64_of_nat [OF assms(3,4)] fl64_of_nat [OF assms(5,6)]
    by (simp add: resizeDims_def Let_def sc)
qed

lemma resizeDims_200: "resizeDims None None 200 200 = (Fin 200, Fin 200)"
  using resizeDims_identity(2) [of None None 200 200] by simp




text \<open>
  Claim C10: when \<open>width\<close> and \<open>height\<close> are each absent or 0, the larger ratio is 0
  and the scale that is applied is 1. The sizes asked of the resize are then the
  origin's own, so the image that comes out of it and goes to the encoder has the
  origin's sizes, which are positive: the encoder's failure on a zero size is not
  reached. The resize and that failure of the encoder are taken from the
  specification.
\<close>

theorem zero_or_absent_keeps_size:
  assumes "width req = None \<or> width req = Some (Fin 0)"
    and "height req = None \<or> height req = Some (Fin 0)"
    and "decode e origFmt bin = Some img"
    and "0 < img_width img" and "img_width img < 2 ^ 53"
    and "0 < img_height img" and "img_height img < 2 ^ 53"
    and "resizeContract (resize e)"
  shows "js_max (js_div (orZero (width req)) (Fin (of_nat (img_width img))))
                (js_div (orZero (height req)) (Fin (of_nat (img_height img)))) = Fin 0
     \<and> resizeScale (width req) (height req) (img_width img) (img_height img) = Fin 1
     \<and> resizeDims (width req) (height req) (img_width img) (img_height img)
           = (Fin (of_nat (img_width img)), Fin (of_nat (img_height img)))
     \<and> manipulate e origFmt bin req
           = resize e img (Fin (of_nat (img_width img))) (Fin (of_nat (img_height img)))
     \<and> (\<forall>m. manipulate e origFmt bin req = Some m \<longrightarrow>
            img_width m = img_width img \<and> img_height m = img_height img
            \<and> \<not> encodeRejectsSize m)
     \<and> (\<forall>out. transcode e origFmt resFmt bin req = Some out \<longrightarrow>
            (\<exists>m. encode e resFmt m = Some out
                 \<and> img_width m = img_width img \<and> img_height m = img_height img
                 \<and> \<not> encodeRejectsSize m))"
proof -
  have z: "orZero (width req) = Fin 0" "orZero (height req) = Fin 0"
    using assms(1,2) by (auto simp: orZero_def)
  have mx: "js_max (js_div (orZero (width req)) (Fin (of_nat (img_width img))))
                   (js_div (orZero (height req)) (Fin (of_nat (img_height img)))) = Fin 0"
    using assms(4,6) by (simp add: z fl64_zero)
  have sc: "resizeScale (width req) (height req) (img_width img) (img_height img) = Fin 1"
    using assms(1,2,4,5,6,7) by (rule resizeDims_identity(1))
  have dims: "resizeDims (width req) (height req) (img_width img) (img_height img)
                = (Fin (of_nat (img_width img)), Fin (of_nat (img_height img)))"
    using assms(1,2,4,5,6,7) by (rule resizeDims_identity(2))
  have mp: "manipulate e origFmt bin req
              = resize e img (Fin (of_nat (img_width img))) (Fin (of_nat (img_height img)))"
    using assms(3,4,6) by (simp add: manipulate_def Let_def dims)
  have out: "img_width m = img_width img \<and> img_height m = img_height img \<and> \<not> encodeRejectsSize m"
    if "manipulate e origFmt bin req = Some m" for m
  proof -
    from that mp
    have "resize e img (Fin (of_nat (img_width img))) (Fin (of_nat (img_height img))) = Some m"
      by simp
    with assms(8) assms(4,6) have "img_width m = img_width img \<and> img_height m = img_height img"
      unfolding resizeContract_def by blast
    with assms(4,6) show ?thesis
      by (simp add: encodeRejectsSize_def)
  qed
  have enc: "\<exists>m. encode e resFmt m = Some out
                 \<and> img_width m = img_width img \<and> img_height m = img_height img
                 \<and> \<not> encodeRejectsSize m"
    if "transcode e origFmt resFmt bin req = Some out" for out
  proof -
    from that obtain m where m: "manipulate e origFmt bin req = Some m"
      and e: "encode e resFmt m = Some out"
      by (auto simp: transcode_def split: option.splits)
    from out [OF m] e show ?thesis by blast
  qed
  from mx sc dims mp out enc show ?thesis
    by blast
qed

lemma resizeContract_ex_resize: "resizeContract ex_resize"
  by (auto simp: resizeContract_def split: if_splits)

theorem zero_or_absent_keeps_size_witness:
  "decode (ex_env [] 0) ''jpg'' [1] = Some \<lparr>img_width = 200, img_height = 200, img_data = [1]\<rparr>
   \<and> resizeContract (resize (ex_env [] 0))
   \<and> resizeScale (Some (Fin 0)) None 200 200 = Fin 1
   \<and> resizeDims (Some (Fin 0)) None 200 200 = (Fin 200, Fin 200)
   \<and> manipulate (ex_env [] 0) ''jpg'' [1] ((ex_request ''aa.png'' None None)\<lparr>width := Some (Fin 0)\<rparr>)
        = Some \<lparr>img_width = 200, img_height = 200, img_data = [1]\<rparr>
   \<and> \<not> encodeRejectsSize \<lparr>img_width = 200, img_height = 200, img_data = [1]\<rparr>"
proof -
  let ?e = "ex_env [] 0"
  let ?req = "(ex_request ''aa.png'' None None)\<lparr>width := Some (Fin 0)\<rparr>"
  let ?img = "\<lparr>img_width = 200, img_height = 200, img_data = [1 :: 8 word]\<rparr>"
  have w: "width ?req = None \<or> width ?req = Some (Fin 0)"
    by (simp add: ex_request_def)
  have h: "height ?req = None \<or> height ?req = Some (Fin 0)"
    by (simp add: ex_request_def)
  have d: "decode ?e ''jpg'' [1] = Some ?img"
    by (simp add: ex_env_def ex_decode_def)
  have p: "0 < img_width ?img" "img_width ?img < 2 ^ 53" "0 < img_height ?img"
    "img_height ?img < 2 ^ 53"
    by simp_all
  have c: "resizeContract (resize ?e)"
    by (simp add: ex_env_def resizeContract_ex_resize)
  have r: "resize ?e ?img (Fin (of_nat (img_width ?img))) (Fin (of_nat (img_height ?img)))
             = Some ?img"
    by (simp add: ex_env_def)
  have ws: "width ?req = Some (Fin 0)" and hs: "height ?req = None"
    by (simp_all add: ex_request_def)
  note inst = zero_or_absent_keeps_size [OF w h d p c]
  have sc: "resizeScale (Some (Fin 0)) None 200 200 = Fin 1"
    using inst by (simp add: ws hs)
  have dims: "resizeDims (Some (Fin 0)) None 200 200 = (Fin 200, Fin 200)"
    using inst by (simp add: ws hs)
  have mp: "manipulate ?e ''jpg'' [1] ?req = Some ?img"
    using inst r by simp
  have ok: "\<not> encodeRejectsSize ?img"
    using inst mp by blast
  from d c sc dims mp ok show ?thesis
    by blast
qed

section \<open>The handler: outcomes and the cache\<close>

lemma xCache_negotiatedVary:
  "headers_get (negotiatedVary fmt req h) ''X-Cache'' = headers_get h ''X-Cache''"
  by (simp add: negotiatedVary_def headers_get_set)

text \<open>Only the reply marked \<open>MISS\<close> comes with a changed cache.\<close>

lemma imageApp_cache_frame:
  "xCache (fst (imageApp e req c)) \<noteq> Some ''MISS'' \<Longrightarrow> snd (imageApp e req c) = c"
  by (auto simp: imageApp_def Let_def xCache_def xCache_negotiatedVary headers_get_set
           split: option.splits if_splits)

lemma imageApp_status_frame:
  "status (fst (imageApp e req c)) \<noteq> 200 \<Longrightarrow> snd (imageApp e req c) = c"
  by (auto simp: imageApp_def Let_def httpException_def split: option.splits if_splits)

lemma imageApp_status_cases:
  "status (fst (imageApp e req c)) \<in> {200, 404, 500, 501}"
  by (auto simp: imageApp_def Let_def httpException_def split: option.splits)

text \<open>The steps of the transcoding that can throw.\<close>

lemma transcode_fails_iff:
  "transcode e origFmt resFmt bin req = None \<longleftrightarrow>
     (case decode e origFmt bin of
        None \<Rightarrow> True
      | Some img \<Rightarrow>
          img_width img = 0 \<or> img_height img = 0
          \<or> (case resize e img
                     (fst (resizeDims (width req) (height req) (img_width img) (img_height img)))
                     (snd (resizeDims (width req) (height req) (img_width img) (img_height img))) of
                None \<Rightarrow> True
              | Some manipulated \<Rightarrow> encode e resFmt manipulated = None))"
  by (simp add: transcode_def manipulate_def Let_def split: option.splits)

text \<open>
  Claim C7, as stated, fails where two of its conditions meet: for the request
  \<open>aa.tiff\<close> and an empty store no file matches, and the status is 501, not 404.
\<close>

theorem status_unsupported_before_missing_counterexample:
  "globby [] (parse_name ''aa.tiff'') = None
   \<and> status (fst (imageApp (ex_env [] 1000) (ex_request ''aa.tiff'' None None) [])) = 501"
  by (simp add: imageApp_def Let_def globby_def negotiate_def ex_env_def ex_request_def
      truthy_def or_default_def extname_def isSupportedImageFormat_def
      SUPPORTED_IMAGE_EXTENSIONS_def httpException_def)

text \<open>
  Claim C7, amended: every request gets exactly one reply, decided in this order.
  The reply is the error 501 when the negotiated format is outside the supported set;
  otherwise the error 404 when no file of the store matches \<open><imageId>\<close> or
  \<open><imageId>.*\<close>; otherwise the error 500 when the extension of the first match is
  not a supported tag; otherwise, when the request is neither a bypass nor a cache hit
  and decoding, resizing or encoding throws, the error 500; and in every remaining
  case the status is 200. On each of these error paths the cache is returned as it
  was; the status is one of 200, 404, 500 and 501, and a status other than 200 always
  comes with an unchanged cache.
\<close>

theorem imageApp_error_outcomes:
  "(let fmt = negotiate (files e) req;
        orig = globby (files e) (parse_name (imageFile req));
        key = cacheKeyOf (numToString e) (parse_name (imageFile req)) fmt (width req) (height req);
        rc = imageApp e req c
    in (\<not> isSupportedImageFormat fmt \<longrightarrow> rc = (httpException 501, c))
     \<and> (isSupportedImageFormat fmt \<and> orig = None \<longrightarrow> rc = (httpException 404, c))
     \<and> (\<forall>f. isSupportedImageFormat fmt \<and> orig = Some f
              \<and> \<not> isSupportedImageFormat (drop 1 (extname (fst f)))
            \<longrightarrow> rc = (httpException 500, c))
     \<and> (\<forall>f. isSupportedImageFormat fmt \<and> orig = Some f
              \<and> isSupportedImageFormat (drop 1 (extname (fst f)))
              \<and> \<not> (fmt = drop 1 (extname (fst f)) \<and> width req = None \<and> height req = None)
              \<and> cache_lookup (now_lookup e) key c = None
              \<and> transcode e (drop 1 (extname (fst f))) fmt (snd f) req = None
            \<longrightarrow> rc = (httpException 500, c))
     \<and> (\<forall>f. isSupportedImageFormat fmt \<and> orig = Some f
              \<and> isSupportedImageFormat (drop 1 (extname (fst f)))
              \<and> ((fmt = drop 1 (extname (fst f)) \<and> width req = None \<and> height req = None)
                  \<or> cache_lookup (now_lookup e) key c \<noteq> None
                  \<or> transcode e (drop 1 (extname (fst f))) fmt (snd f) req \<noteq> None)
            \<longrightarrow> status (fst rc) = 200)
     \<and> status (fst rc) \<in> {200, 404, 500, 501}
     \<and> (status (fst rc) \<noteq> 200 \<longrightarrow> snd rc = c))"
proof -
  have a: "\<not> isSupportedImageFormat (negotiate (files e) req)
           \<Longrightarrow> imageApp e req c = (httpException 501, c)"
    by (simp add: imageApp_def Let_def)
  have b: "isSupportedImageFormat (negotiate (files e) req)
           \<Longrightarrow> globby (files e) (parse_name (imageFile req)) = None
           \<Longrightarrow> imageApp e req c = (httpException 404, c)"
    by (simp add: imageApp_def Let_def)
  have d: "isSupportedImageFormat (negotiate (files e) req)
           \<Longrightarrow> globby (files e) (parse_name (imageFile req)) = Some f
           \<Longrightarrow> \<not> isSupportedImageFormat (drop 1 (extname (fst f)))
           \<Longrightarrow> imageApp e req c = (httpException 500, c)" for f
    by (simp add: imageApp_def Let_def)
  have t: "isSupportedImageFormat (negotiate (files e) req)
           \<Longrightarrow> globby (files e) (parse_name (imageFile req)) = Some f
           \<Longrightarrow> isSupportedImageFormat (drop 1 (extname (fst f)))
           \<Longrightarrow> \<not> (negotiate (files e) req = drop 1 (extname (fst f))
                   \<and> width req = None \<and> height req = None)
           \<Longrightarrow> cache_lookup (now_lookup e)
                 (cacheKeyOf (numToString e) (parse_name (imageFile req))
                    (negotiate (files e) req) (width req) (height req)) c = None
           \<Longrightarrow> transcode e (drop 1 (extname (fst f))) (negotiate (files e) req) (snd f) req = None
           \<Longrightarrow> imageApp e req c = (httpException 500, c)" for f
    by (auto simp: imageApp_def Let_def)
  have ok: "isSupportedImageFormat (negotiate (files e) req)
           \<Longrightarrow> globby (files e) (parse_name (imageFile req)) = Some f
           \<Longrightarrow> isSupportedImageFormat (drop 1 (extname (fst f)))
           \<Longrightarrow> (negotiate (files e) req = drop 1 (extname (fst f))
                   \<and> width req = None \<and> height req = None)
               \<or> cache_lookup (now_lookup e)
                   (cacheKeyOf (numToString e) (parse_name (imageFile req))
                      (negotiate (files e) req) (width req) (height req)) c \<noteq> None
               \<or> transcode e (drop 1 (extname (fst f))) (negotiate (files e) req) (snd f) req \<noteq> None
           \<Longrightarrow> status (fst (imageApp e req c)) = 200" for f
    by (auto simp: imageApp_def Let_def split: option.splits)
  show ?thesis
    unfolding Let_def
    using a b d t ok imageApp_status_cases [of e req c] imageApp_status_frame [of e req c]
    by blast
qed

theorem imageApp_error_outcomes_witness:
  "isSupportedImageFormat (negotiate [(''aa.jpg'', [1])] (ex_request ''aa.png'' None None))
   \<and> globby [(''aa.jpg'', [1])] (parse_name ''aa.png'') = Some (''aa.jpg'', [1])
   \<and> transcode (ex_env_broken [(''aa.jpg'', [1])] 1000) ''jpg'' ''png'' [1]
        (ex_request ''aa.png'' None None) = None
   \<and> imageApp (ex_env_broken [(''aa.jpg'', [1])] 1000) (ex_request ''aa.png'' None None)
        [(ex_key 0, ex_entry 1)] = (httpException 500, [(ex_key 0, ex_entry 1)])
   \<and> imageApp (ex_env [] 1000) (ex_request ''aa.png'' None None)
        [(ex_key 0, ex_entry 1)] = (httpException 404, [(ex_key 0, ex_entry 1)])"
proof -
  let ?e = "ex_env_broken [(''aa.jpg'', [1])] 1000"
  let ?emp = "ex_env [] 1000"
  let ?req = "ex_request ''aa.png'' None None"
  let ?c = "[(ex_key 0, ex_entry 1)]"
  have x: "extname ''aa.png'' = ''.png''" "extname ''aa.jpg'' = ''.jpg''"
    by (simp_all add: extname_def)
  have p: "parse_name ''aa.png'' = ''aa''"
    by (simp add: parse_name_def x)
  have n: "negotiate st ?req = ''png''" for st
    by (simp add: negotiate_def ex_request_def Let_def truthy_def or_default_def x)
  have s: "isSupportedImageFormat ''png''" "isSupportedImageFormat ''jpg''"
    by (simp_all add: isSupportedImageFormat_def SUPPORTED_IMAGE_EXTENSIONS_def)
  have g: "globby [(''aa.jpg'', [1])] ''aa'' = Some (''aa.jpg'', [1])"
    by (simp add: globby_def globMatch_def)
  have g0: "globby [] ''aa'' = None"
    by (simp add: globby_def)
  have sel: "files ?e = [(''aa.jpg'', [1])]" "files ?emp = []" "imageFile ?req = ''aa.png''"
    "width ?req = None" "height ?req = None" "now_lookup ?e = 1000"
    "numToString ?e = ex_numToString"
    by (simp_all add: ex_env_def ex_env_broken_def ex_request_def)
  have k: "cacheKeyOf ex_numToString ''aa'' ''png'' None None = ''aa_png_auto_auto''"
    by (simp add: cacheKeyOf_def)
  have l: "cache_lookup 1000 ''aa_png_auto_auto'' ?c = None"
    by (simp add: cache_lookup_def ex_key_def)
  have t: "transcode ?e ''jpg'' ''png'' [1] ?req = None"
    by (simp add: transcode_def manipulate_def ex_env_broken_def ex_decode_fails_def)
  have broken: "imageApp ?e ?req ?c = (httpException 500, ?c)"
    using imageApp_error_outcomes [of ?e ?req ?c] s g l t
    by (simp add: Let_def sel n p x k)
  have missing: "imageApp ?emp ?req ?c = (httpException 404, ?c)"
    using imageApp_error_outcomes [of ?emp ?req ?c] s g0
    by (simp add: Let_def sel n p)
  show ?thesis
    using broken missing s g t by (simp add: n p)
qed

section \<open>The bypass branch\<close>

lemma ex_env_sel:
  "files (ex_env st t) = st" "decode (ex_env st t) = ex_decode"
  "resize (ex_env st t) = ex_resize" "encode (ex_env st t) = ex_encode"
  "numToString (ex_env st t) = ex_numToString" "now_lookup (ex_env st t) = t"
  "now_evict (ex_env st t) = t" "now_insert (ex_env st t) = t"
  by (simp_all add: ex_env_def)

lemma ex_request_sel:
  "imageFile (ex_request file acc fmt) = file" "accept (ex_request file acc fmt) = acc"
  "format (ex_request file acc fmt) = fmt" "height (ex_request file acc fmt) = None"
  "width (ex_request file acc fmt) = None"
  by (simp_all add: ex_request_def)

text \<open>
  What the bypass does: when the negotiated format is the format of the origin file,
  no size was given and, unless that format is webp, no fresh entry lies under the
  key of the request, the reply has status 200, the bytes of the origin file and
  \<open>X-Cache: BYPASS\<close>, and the cache is left as it was. When no non-empty \<open>format\<close>
  parameter was given, \<open>Vary: Accept\<close> is set if and only if the format is webp.
\<close>

lemma bypass_when_no_fresh_entry:
  assumes "globby (files e) (parse_name (imageFile req)) = Some f"
    and "isSupportedImageFormat (negotiate (files e) req)"
    and "negotiate (files e) req = drop 1 (extname (fst f))"
    and "width req = None" and "height req = None"
    and "negotiate (files e) req = ''webp''
         \<or> cache_lookup (now_lookup e)
              (cacheKeyOf (numToString e) (parse_name (imageFile req))
                 (negotiate (files e) req) None None) c = None"
  shows "status (fst (imageApp e req c)) = 200
     \<and> body (fst (imageApp e req c)) = snd f
     \<and> xCache (fst (imageApp e req c)) = Some ''BYPASS''
     \<and> snd (imageApp e req c) = c
     \<and> (\<not> truthy (format req) \<longrightarrow>
           (headers_get (headers (fst (imageApp e req c))) ''Vary'' = Some ''Accept'')
             = (negotiate (files e) req = ''webp''))
     \<and> (negotiate (files e) req \<noteq> ''webp'' \<longrightarrow>
           headers_get (headers (fst (imageApp e req c))) ''Vary'' = None)"
proof (cases "negotiate (files e) req = ''webp''")
  case True
  with assms show ?thesis
    by (simp add: imageApp_def Let_def xCache_def headers_get_set)
next
  case False
  with assms show ?thesis
    by (simp add: imageApp_def Let_def xCache_def headers_get_set headers_get_def [of "[]"])
qed

text \<open>
  Claim C6 (a request whose negotiated format is the origin's format, without width
  and height, is answered with the origin's bytes and \<open>X-Cache: BYPASS\<close> without
  touching the cache, and \<open>Vary: Accept\<close> is set if and only if the format was
  chosen by negotiation and not by an explicit \<open>format\<close> parameter), evaluated where
  the code breaks it: the store holds \<open>aa.webp\<close> and the request is
  \<open>aa.webp?format=webp\<close>. The reply is the bypass, and \<open>Vary: Accept\<close> is set
  although the format was given explicitly. The miss branch tests the parameter: the
  same explicit request for the image \<open>bb\<close>, stored as \<open>bb.jpg\<close>, is transcoded
  and carries no \<open>Vary\<close>.
\<close>

theorem bypass_vary_on_explicit_webp:
  "format (ex_request ''aa.webp'' None (Some ''webp'')) = Some ''webp''
   \<and> imageApp (ex_env [(''aa.webp'', [2])] 2000) (ex_request ''aa.webp'' None (Some ''webp'')) []
       = (\<lparr>status = 200,
           headers = [(''Content-Type'', ''image/webp''), (''X-Cache'', ''BYPASS''),
                      (''Vary'', ''Accept'')],
           body = [2]\<rparr>, [])
   \<and> fst (imageApp (ex_env [(''bb.jpg'', [1])] 2000) (ex_request ''bb.webp'' None (Some ''webp'')) [])
       = \<lparr>status = 200,
          headers = [(''Content-Type'', ''image/webp''), (''X-Cache'', ''MISS'')],
          body = [1]\<rparr>"
proof -
  let ?reqa = "ex_request ''aa.webp'' None (Some ''webp'')"
  let ?reqb = "ex_request ''bb.webp'' None (Some ''webp'')"
  have x: "extname ''aa.webp'' = ''.webp''" "extname ''bb.webp'' = ''.webp''"
    "extname ''bb.jpg'' = ''.jpg''"
    by (simp_all add: extname_def)
  have p: "parse_name ''aa.webp'' = ''aa''" "parse_name ''bb.webp'' = ''bb''"
    by (simp_all add: parse_name_def x)
  have n: "negotiate st (ex_request nm None (Some ''webp'')) = ''webp''" for st nm
    by (simp add: negotiate_def ex_request_sel Let_def truthy_def)
  have ga: "globby [(''aa.webp'', [2])] ''aa'' = Some (''aa.webp'', [2])"
    by (simp add: globby_def globMatch_def)
  have gb: "globby [(''bb.jpg'', [1])] ''bb'' = Some (''bb.jpg'', [1])"
    by (simp add: globby_def globMatch_def)
  have s: "isSupportedImageFormat ''webp''" "isSupportedImageFormat ''jpg''"
    by (simp_all add: isSupportedImageFormat_def SUPPORTED_IMAGE_EXTENSIONS_def)
  have t: "transcode (ex_env [(''bb.jpg'', [1])] 2000) ''jpg'' ''webp'' [1] ?reqb = Some [1]"
    by (simp add: transcode_def manipulate_def ex_env_sel ex_request_sel ex_decode_def
        ex_encode_def resizeDims_200)
  have explicit: "imageApp (ex_env [(''aa.webp'', [2])] 2000) ?reqa []
                 = (\<lparr>status = 200,
                     headers = [(''Content-Type'', ''image/webp''), (''X-Cache'', ''BYPASS''),
                                (''Vary'', ''Accept'')],
                     body = [2]\<rparr>, [])"
    by (simp add: imageApp_def Let_def n ga s x p headers_set_def IMAGE_MIME_TYPE_def
        ex_env_sel ex_request_sel)
  have miss: "fst (imageApp (ex_env [(''bb.jpg'', [1])] 2000) ?reqb [])
                 = \<lparr>status = 200,
                    headers = [(''Content-Type'', ''image/webp''), (''X-Cache'', ''MISS'')],
                    body = [1]\<rparr>"
    using t by (simp add: imageApp_def Let_def n gb s x p cache_lookup_def negotiatedVary_def
        truthy_def headers_set_def IMAGE_MIME_TYPE_def ex_env_sel ex_request_sel)
  show ?thesis
    using explicit miss by (simp add: ex_request_sel)
qed

section \<open>Reads and expiry\<close>

lemma serveAll_frame:
  "\<forall>r\<in>set (fst (serveAll rs c)). xCache r \<noteq> Some ''MISS'' \<Longrightarrow> snd (serveAll rs c) = c"
proof (induction rs arbitrary: c)
  case Nil
  then show ?case by simp
next
  case (Cons er rest)
  from Cons.prems have "xCache (fst (imageApp (fst er) (snd er) c)) \<noteq> Some ''MISS''"
    by (simp add: Let_def)
  then have same: "snd (imageApp (fst er) (snd er) c) = c"
    by (rule imageApp_cache_frame)
  with Cons.prems have "\<forall>r\<in>set (fst (serveAll rest c)). xCache r \<noteq> Some ''MISS''"
    by (simp add: Let_def)
  then have "snd (serveAll rest c) = c"
    by (rule Cons.IH)
  with same show ?case
    by (simp add: Let_def)
qed

lemma cache_lookup_stale:
  "map_of c k = Some ent \<Longrightarrow> CACHE_TTL \<le> now - timestamp ent \<Longrightarrow> cache_lookup now k c = None"
  by (simp add: cache_lookup_def)

lemma imageApp_hit_needs_lookup:
  "cache_lookup (now_lookup e)
     (cacheKeyOf (numToString e) (parse_name (imageFile req)) (negotiate (files e) req)
        (width req) (height req)) c = None
   \<Longrightarrow> xCache (fst (imageApp e req c)) \<noteq> Some ''HIT''"
  by (auto simp: imageApp_def Let_def xCache_def xCache_negotiatedVary headers_get_set
        httpException_def headers_get_def [of "[]"] split: option.splits)

text \<open>
  Claim C4: a lookup never changes the cache. Let the cache hold the entry \<open>ent\<close>
  under the key \<open>k\<close>, and let any number of requests be served of which none stores
  an entry (reads: hits, bypasses, failed requests). Then the cache is exactly what it
  was, \<open>ent\<close> is still there with its \<open>insertedAt\<close>, and once the clock is past
  \<open>insertedAt + CACHE_TTL\<close> the lookup of \<open>k\<close> is a miss and no request with that key
  is answered as a hit, however many reads there were.
\<close>

theorem reads_do_not_move_expiry:
  assumes "map_of c k = Some ent"
    and "\<forall>r\<in>set (fst (serveAll rs c)). xCache r \<noteq> Some ''MISS''"
    and "CACHE_TTL < now - timestamp ent"
  shows "snd (serveAll rs c) = c
     \<and> map_of (snd (serveAll rs c)) k = Some ent
     \<and> cache_lookup now k (snd (serveAll rs c)) = None
     \<and> (\<forall>e req. now_lookup e = now
            \<and> cacheKeyOf (numToString e) (parse_name (imageFile req)) (negotiate (files e) req)
                 (width req) (height req) = k
          \<longrightarrow> xCache (fst (imageApp e req (snd (serveAll rs c)))) \<noteq> Some ''HIT'')"
proof -
  have same: "snd (serveAll rs c) = c"
    using assms(2) by (rule serveAll_frame)
  have miss: "cache_lookup now k c = None"
    using assms(1) assms(3) by (simp add: cache_lookup_stale)
  have "xCache (fst (imageApp e req c)) \<noteq> Some ''HIT''"
    if "now_lookup e = now"
      and "cacheKeyOf (numToString e) (parse_name (imageFile req)) (negotiate (files e) req)
             (width req) (height req) = k" for e req
    using imageApp_hit_needs_lookup [of e req c] miss that by simp
  with same miss assms(1) show ?thesis
    by simp
qed

theorem reads_do_not_move_expiry_witness:
  "map_of [(''aa_png_auto_auto'', ex_entry 1000)] ''aa_png_auto_auto'' = Some (ex_entry 1000)
   \<and> map xCache (fst (serveAll
        [(ex_env [(''aa.jpg'', [1])] 2000, ex_request ''aa.png'' None None),
         (ex_env [(''aa.jpg'', [1])] 3000, ex_request ''aa.png'' None None)]
        [(''aa_png_auto_auto'', ex_entry 1000)])) = [Some ''HIT'', Some ''HIT'']
   \<and> CACHE_TTL < 3601001 - timestamp (ex_entry 1000)
   \<and> snd (serveAll
        [(ex_env [(''aa.jpg'', [1])] 2000, ex_request ''aa.png'' None None),
         (ex_env [(''aa.jpg'', [1])] 3000, ex_request ''aa.png'' None None)]
        [(''aa_png_auto_auto'', ex_entry 1000)]) = [(''aa_png_auto_auto'', ex_entry 1000)]
   \<and> cache_lookup 3601001 ''aa_png_auto_auto'' (snd (serveAll
        [(ex_env [(''aa.jpg'', [1])] 2000, ex_request ''aa.png'' None None),
         (ex_env [(''aa.jpg'', [1])] 3000, ex_request ''aa.png'' None None)]
        [(''aa_png_auto_auto'', ex_entry 1000)])) = None"
proof -
  let ?c = "[(''aa_png_auto_auto'', ex_entry 1000)]"
  let ?req = "ex_request ''aa.png'' None None"
  let ?st = "[(''aa.jpg'', [1 :: 8 word])]"
  let ?rs = "[(ex_env ?st 2000, ?req), (ex_env ?st 3000, ?req)]"
  have x: "extname ''aa.png'' = ''.png''" "extname ''aa.jpg'' = ''.jpg''"
    by (simp_all add: extname_def)
  have p: "parse_name ''aa.png'' = ''aa''"
    by (simp add: parse_name_def x)
  have n: "negotiate ?st ?req = ''png''"
    by (simp add: negotiate_def ex_request_sel Let_def truthy_def or_default_def x)
  have g: "globby ?st ''aa'' = Some (''aa.jpg'', [1])"
    by (simp add: globby_def globMatch_def)
  have s: "isSupportedImageFormat ''png''" "isSupportedImageFormat ''jpg''"
    by (simp_all add: isSupportedImageFormat_def SUPPORTED_IMAGE_EXTENSIONS_def)
  have k: "cacheKeyOf ex_numToString ''aa'' ''png'' None None = ''aa_png_auto_auto''"
    by (simp add: cacheKeyOf_def)
  have hit: "imageApp (ex_env ?st t) ?req ?c
               = (\<lparr>status = 200,
                   headers = [(''Content-Type'', ''image/png''), (''X-Cache'', ''HIT'')],
                   body = []\<rparr>, ?c)"
    if "t - 1000 < CACHE_TTL" for t
    using that
    by (simp add: imageApp_def Let_def n g s x p k cache_lookup_def ex_entry_def
        negotiatedVary_def headers_set_def ex_env_sel ex_request_sel)
  have h2000: "(2000::int) - 1000 < CACHE_TTL" and h3000: "(3000::int) - 1000 < CACHE_TTL"
    by (simp_all add: CACHE_TTL_def)
  have run: "serveAll ?rs ?c
               = ([\<lparr>status = 200,
                    headers = [(''Content-Type'', ''image/png''), (''X-Cache'', ''HIT'')],
                    body = []\<rparr>,
                   \<lparr>status = 200,
                    headers = [(''Content-Type'', ''image/png''), (''X-Cache'', ''HIT'')],
                    body = []\<rparr>], ?c)"
    by (simp add: Let_def hit [OF h2000] hit [OF h3000])
  have a1: "map_of ?c ''aa_png_auto_auto'' = Some (ex_entry 1000)"
    by simp
  have a2: "\<forall>r\<in>set (fst (serveAll ?rs ?c)). xCache r \<noteq> Some ''MISS''"
    unfolding run by (simp add: xCache_def headers_get_def)
  have a3: "CACHE_TTL < 3601001 - timestamp (ex_entry 1000)"
    by (simp add: CACHE_TTL_def ex_entry_def)
  have hits: "map xCache (fst (serveAll ?rs ?c)) = [Some ''HIT'', Some ''HIT'']"
    unfolding run by (simp add: xCache_def headers_get_def)
  have after: "snd (serveAll ?rs ?c) = ?c"
    and miss: "cache_lookup 3601001 ''aa_png_auto_auto'' (snd (serveAll ?rs ?c)) = None"
    using reads_do_not_move_expiry [OF a1 a2 a3] by blast+
  show ?thesis
    using a1 hits a3 after miss by blast
qed

section \<open>Further observations\<close>

text \<open>
  The arithmetic is that of doubles. For a 7 by 7 origin and \<open>width=29\<close> the quotient
  \<open>29 / 7\<close> rounds up, the product with 7 is above 29, and the sizes are 30 by 30.
  An infinite \<open>width\<close> gives infinite sizes. The smallest positive double,
  \<open>pow2 (- 1074)\<close>, as \<open>width\<close> gives a quotient that underflows to zero, so the
  scale is 1.
\<close>

lemma resize_rounding_example:
  "resizeDims (Some (Fin 29)) None 7 7 = (Fin 30, Fin 30)"
  by code_simp

lemma resize_infinite_example:
  "resizeDims (Some PosInf) None 200 200 = (PosInf, PosInf)"
  by (simp add: resizeDims_def resizeScale_def orZero_def fl64_zero js_or_one_def)

lemma resize_underflow_example:
  "resizeDims (Some (Fin (pow2 (- 1074)))) None 200 200 = (Fin 200, Fin 200)"
proof -
  have h: "pow2 (- 1075) = pow2 (- 1074) / 2"
    using pow2_half [of "- 1074"] by simp
  have "pow2 (- 1074) / 200 < pow2 (- 1075)"
    unfolding h using pow2_pos [of "- 1074"] by simp
  moreover have "0 < pow2 (- 1074) / 200"
    using pow2_pos [of "- 1074"] by simp
  ultimately have q: "fl64 (pow2 (- 1074) / 200) = Fin 0"
    by (simp add: fl64_underflow)
  have "resizeScale (Some (Fin (pow2 (- 1074)))) None 200 200 = Fin 1"
    using q by (simp add: resizeScale_def orZero_def fl64_zero js_or_one_def)
  then show ?thesis
    using fl64_of_nat [of 200] by (simp add: resizeDims_def Let_def)
qed

text \<open>
  The classes of the Cache-Control stage overlap, and the URL is looked at first: a
  json response under a URL that contains \<open>/images/\<close> gets the long-lived public
  value.
\<close>

lemma cacheControl_json_under_images_url:
  "headers_get (res_headers (cacheControlMiddleware ''http://localhost:8000/api/v1/images/0a''
      \<lparr>res_headers = [(''Content-Type'', ''application/json'')], res_body = Some []\<rparr>))
     ''Cache-Control'' = Some ''public, max-age=31536000, immutable''"
proof -
  have "str_includes ''http://localhost:8000/api/v1/images/0a'' ''/images/''"
    by simp
  then show ?thesis
    by (simp add: cacheControlMiddleware_def Let_def headers_get_set del: str_includes.simps)
qed

section \<open>Eviction when an entry is older than the clock reading\<close>

text \<open>
  When some entry is strictly older than the clock reading, and the keys are distinct
  and non-empty as the handler makes them, eviction removes exactly one entry, and its
  timestamp is the smallest in the cache.
\<close>

lemma evict_step_apply:
  "evict_step (k, t) kv
     = (if timestamp (snd kv) < t then (Some (fst kv), timestamp (snd kv)) else (k, t))"
  by (simp add: evict_step_def)

lemma evict_fold_lower:
  "foldl evict_step (k, t) c = (k', t') \<Longrightarrow> t' \<le> t \<and> (\<forall>kv\<in>set c. t' \<le> timestamp (snd kv))"
proof (induction c arbitrary: k t)
  case Nil
  then show ?case by simp
next
  case (Cons kv c)
  show ?case
  proof (cases "timestamp (snd kv) < t")
    case True
    with Cons.prems have "foldl evict_step (Some (fst kv), timestamp (snd kv)) c = (k', t')"
      by (simp add: evict_step_apply)
    from Cons.IH [OF this] True show ?thesis by auto
  next
    case False
    with Cons.prems have "foldl evict_step (k, t) c = (k', t')"
      by (simp add: evict_step_apply)
    from Cons.IH [OF this] False show ?thesis by auto
  qed
qed

lemma evict_fold_selected:
  "foldl evict_step (k, t) c = (k', t') \<Longrightarrow>
     (k' = k \<and> t' = t) \<or> (\<exists>kv\<in>set c. k' = Some (fst kv) \<and> t' = timestamp (snd kv) \<and> t' < t)"
proof (induction c arbitrary: k t)
  case Nil
  then show ?case by simp
next
  case (Cons kv c)
  show ?case
  proof (cases "timestamp (snd kv) < t")
    case True
    with Cons.prems have "foldl evict_step (Some (fst kv), timestamp (snd kv)) c = (k', t')"
      by (simp add: evict_step_apply)
    from Cons.IH [OF this] True show ?thesis by auto
  next
    case False
    with Cons.prems have "foldl evict_step (k, t) c = (k', t')"
      by (simp add: evict_step_apply)
    from Cons.IH [OF this] show ?thesis by auto
  qed
qed

lemma length_delete_present:
  "distinct (map fst c) \<Longrightarrow> (k, v) \<in> set c \<Longrightarrow> Suc (length (AList.delete k c)) = length c"
proof (induction c)
  case Nil
  then show ?case by simp
next
  case (Cons p c)
  show ?case
  proof (cases "fst p = k")
    case True
    with Cons.prems(1) have "k \<notin> fst ` set c" by auto
    then have "AList.delete k c = c"
      by (induction c) auto
    with True show ?thesis by (cases p) simp
  next
    case False
    with Cons.prems have "(k, v) \<in> set c" by auto
    with Cons.IH Cons.prems(1) False show ?thesis by (cases p) simp
  qed
qed

lemma evictOldestEntry_removes_oldest:
  assumes "distinct (map fst c)"
    and "\<forall>kv\<in>set c. fst kv \<noteq> []"
    and "\<exists>kv\<in>set c. timestamp (snd kv) < now"
  shows "\<exists>kv\<in>set c. (\<forall>kv'\<in>set c. timestamp (snd kv) \<le> timestamp (snd kv'))
            \<and> evictOldestEntry now c = AList.delete (fst kv) c
            \<and> Suc (length (evictOldestEntry now c)) = length c"
proof -
  obtain k' t' where f: "foldl evict_step (None, now) c = (k', t')"
    by (cases "foldl evict_step (None, now) c") auto
  from evict_fold_lower [OF f] assms(3) have "t' < now" and low: "\<forall>kv\<in>set c. t' \<le> timestamp (snd kv)"
    by auto
  with evict_fold_selected [OF f] obtain kv
    where kv: "kv \<in> set c" "k' = Some (fst kv)" "t' = timestamp (snd kv)"
    by auto
  from kv(1) assms(2) have ne: "fst kv \<noteq> []" by auto
  have ev: "evictOldestEntry now c = AList.delete (fst kv) c"
    using f kv(2) ne by (simp add: evictOldestEntry_def)
  have "(fst kv, snd kv) \<in> set c" using kv(1) by simp
  from length_delete_present [OF assms(1) this] ev
  have "Suc (length (evictOldestEntry now c)) = length c" by simp
  with kv low ev show ?thesis by auto
qed

lemma length_update_le: "length (AList.update k v al) \<le> Suc (length al)"
  by (induction al) auto

lemma cache_store_bounded:
  assumes "distinct (map fst c)"
    and "\<forall>kv\<in>set c. fst kv \<noteq> []"
    and "length c \<le> MAX_CACHE_SIZE"
    and "\<exists>kv\<in>set c. timestamp (snd kv) < now_e"
  shows "length (cache_store now_e now_i key bin mime c) \<le> MAX_CACHE_SIZE"
proof (cases "MAX_CACHE_SIZE \<le> length c")
  case True
  from evictOldestEntry_removes_oldest [OF assms(1,2,4)]
  have "Suc (length (evictOldestEntry now_e c)) = length c" by auto
  with assms(3) have "Suc (length (evictOldestEntry now_e c)) \<le> MAX_CACHE_SIZE" by simp
  with True length_update_le [of key _ "evictOldestEntry now_e c"] show ?thesis
    by (simp add: cache_store_def Let_def) (meson Suc_le_mono le_trans)
next
  case False
  with length_update_le [of key _ c] show ?thesis
    by (simp add: cache_store_def Let_def) (meson Suc_leI le_trans not_le)
qed

section \<open>Eviction when no entry is older than the clock reading\<close>

text \<open>
  The loop of \<open>evictOldestEntry\<close> starts from the clock reading, so it selects an
  entry only if one is strictly older than that reading.
\<close>

lemma evict_fold_noop:
  "\<forall>kv\<in>set c. t \<le> timestamp (snd kv) \<Longrightarrow> foldl evict_step (k, t) c = (k, t)"
  by (induction c) (auto simp: evict_step_def)

lemma evictOldestEntry_noop:
  "\<forall>kv\<in>set c. now \<le> timestamp (snd kv) \<Longrightarrow> evictOldestEntry now c = c"
  by (simp add: evictOldestEntry_def evict_fold_noop)

lemma update_new_key:
  "k \<notin> fst ` set al \<Longrightarrow> AList.update k v al = al @ [(k, v)]"
  by (induction al) auto

lemma length_ex_key: "length (ex_key i) = i + 15"
  by (simp add: ex_key_def)

lemma ex_key_neq: "i \<noteq> j \<Longrightarrow> ex_key i \<noteq> ex_key j"
  using length_ex_key [of i] length_ex_key [of j] by auto

lemma ex_cache_prefix:
  "n \<le> 100 \<Longrightarrow>
   foldl (\<lambda>c i. cache_store 1000 1000 (ex_key i) [] ''image/png'' c) [] [0..<n]
     = map (\<lambda>i. (ex_key i, ex_entry 1000)) [0..<n]"
proof (induction n)
  case 0
  then show ?case by simp
next
  case (Suc n)
  let ?c = "map (\<lambda>i. (ex_key i, ex_entry 1000)) [0..<n]"
  have new: "ex_key n \<notin> fst ` set ?c"
    using ex_key_neq by (auto simp: image_iff)
  have "cache_store 1000 1000 (ex_key n) [] ''image/png'' ?c = ?c @ [(ex_key n, ex_entry 1000)]"
    using Suc.prems update_new_key [OF new]
    by (simp add: cache_store_def MAX_CACHE_SIZE_def ex_entry_def)
  with Suc show ?case by simp
qed

lemma ex_full_cache_eq:
  "ex_full_cache = map (\<lambda>i. (ex_key i, ex_entry 1000)) [0..<100]"
  unfolding ex_full_cache_def by (rule ex_cache_prefix) simp

lemma hd_ex_key: "hd (ex_key i) = CHR ''a''"
  by (simp add: ex_key_def)

lemma ff_key_new: "''ff_png_auto_auto'' \<notin> fst ` set ex_full_cache"
proof
  assume "''ff_png_auto_auto'' \<in> fst ` set ex_full_cache"
  then obtain i where "''ff_png_auto_auto'' = ex_key i"
    by (auto simp: ex_full_cache_eq)
  then have "hd ''ff_png_auto_auto'' = hd (ex_key i)"
    by simp
  then show False
    by (simp add: hd_ex_key)
qed

text \<open>
  Claim C2 (the cache holds at most \<open>MAX_CACHE_SIZE\<close> entries after every insertion,
  and an insertion at capacity first evicts exactly one entry), evaluated where the
  code breaks it: the cache holds the hundred entries stored at the clock reading
  1000, and the next insertion, of a new key, reads the clock at 900. No entry is
  older than that reading, nothing is evicted, and the cache holds 101 entries: so
  for the insertion by itself, and so for the request \<open>ff.png\<close> that is transcoded
  from \<open>ff.jpg\<close>.
\<close>

theorem cache_grows_past_capacity:
  "length ex_full_cache = MAX_CACHE_SIZE
   \<and> length (cache_store 900 900 (ex_key 100) [] ''image/png'' ex_full_cache) = 101
   \<and> status (fst (imageApp (ex_env [(''ff.jpg'', [1])] 900) (ex_request ''ff.png'' None None)
                  ex_full_cache)) = 200
   \<and> length (snd (imageApp (ex_env [(''ff.jpg'', [1])] 900) (ex_request ''ff.png'' None None)
                  ex_full_cache)) = 101"
proof -
  let ?req = "ex_request ''ff.png'' None None"
  let ?e = "ex_env [(''ff.jpg'', [1])] 900"
  have len: "length ex_full_cache = 100"
    by (simp add: ex_full_cache_eq)
  have "\<forall>kv\<in>set ex_full_cache. 900 \<le> timestamp (snd kv)"
    by (auto simp: ex_full_cache_eq ex_entry_def)
  then have noop: "evictOldestEntry 900 ex_full_cache = ex_full_cache"
    by (rule evictOldestEntry_noop)
  have new: "ex_key 100 \<notin> fst ` set ex_full_cache"
    using ex_key_neq by (auto simp: ex_full_cache_eq image_iff)
  have store: "length (cache_store 900 900 k bin mime ex_full_cache) = 101"
    if "k \<notin> fst ` set ex_full_cache" for k bin mime
    using update_new_key [OF that]
    by (simp add: cache_store_def MAX_CACHE_SIZE_def len noop)
  have x: "extname ''ff.png'' = ''.png''" "extname ''ff.jpg'' = ''.jpg''"
    by (simp_all add: extname_def)
  have p: "parse_name ''ff.png'' = ''ff''"
    by (simp add: parse_name_def x)
  have n: "negotiate st ?req = ''png''" for st
    by (simp add: negotiate_def ex_request_def Let_def truthy_def or_default_def x)
  have g: "globby [(''ff.jpg'', [1])] ''ff'' = Some (''ff.jpg'', [1])"
    by (simp add: globby_def globMatch_def)
  have s: "isSupportedImageFormat ''png''" "isSupportedImageFormat ''jpg''"
    by (simp_all add: isSupportedImageFormat_def SUPPORTED_IMAGE_EXTENSIONS_def)
  have t: "transcode ?e ''jpg'' ''png'' [1] ?req = Some [1]"
    by (simp add: transcode_def manipulate_def ex_env_sel ex_request_sel ex_decode_def
        ex_encode_def resizeDims_200)
  have k: "cacheKeyOf ex_numToString ''ff'' ''png'' None None = ''ff_png_auto_auto''"
    by (simp add: cacheKeyOf_def)
  have "map_of ex_full_cache ''ff_png_auto_auto'' = None"
    using ff_key_new by (simp add: map_of_eq_None_iff)
  then have l: "cache_lookup 900 ''ff_png_auto_auto'' ex_full_cache = None"
    by (simp add: cache_lookup_def)
  have run: "imageApp ?e ?req ex_full_cache
               = (\<lparr>status = 200,
                   headers = [(''Content-Type'', ''image/png''), (''X-Cache'', ''MISS'')],
                   body = [1]\<rparr>,
                  cache_store 900 900 ''ff_png_auto_auto'' [1] ''image/png'' ex_full_cache)"
    using t by (simp add: imageApp_def Let_def n g s x p k l negotiatedVary_def headers_set_def
        IMAGE_MIME_TYPE_def ex_env_sel ex_request_sel)
  show ?thesis
    by (simp add: run store [OF new] store [OF ff_key_new] len MAX_CACHE_SIZE_def)
qed

text \<open>
  Claim C3 (eviction on a non-empty cache removes the entry with the smallest
  \<open>insertedAt\<close>), evaluated where the code breaks it: on the same full cache and
  with the clock reading 900, eviction removes no entry at all.
\<close>

theorem eviction_removes_nothing:
  "ex_full_cache \<noteq> [] \<and> evictOldestEntry 900 ex_full_cache = ex_full_cache"
proof -
  have "length ex_full_cache = 100"
    by (simp add: ex_full_cache_eq)
  then have ne: "ex_full_cache \<noteq> []" by auto
  have "\<forall>kv\<in>set ex_full_cache. 900 \<le> timestamp (snd kv)"
    by (auto simp: ex_full_cache_eq ex_entry_def)
  then have "evictOldestEntry 900 ex_full_cache = ex_full_cache"
    by (rule evictOldestEntry_noop)
  with ne show ?thesis by simp
qed

end
